theory Spec2Isabelle
  imports Main
begin

section \<open>Python values used by the storage service\<close>

text \<open>
  The exceptions that the modelled functions raise or let escape. Only
  \<open>ImportAIPException\<close> is defined in \<^verbatim>\<open>import_aip.py\<close>; the others are raised by
  the Python runtime and the libraries the command calls.
\<close>

datatype error =
    ImportAIPException string
  | TypeError
  | OSError
  | KeyError
  | EOFError
  | IntegrityError
  | DoesNotExist
  | MultipleObjectsReturned
  | TarError
  | BagError

text \<open>\<^verbatim>\<open>s.startswith(p)\<close>, \<^verbatim>\<open>s.endswith(p)\<close>, \<^verbatim>\<open>s[i:j]\<close> for \<open>0 \<le> i \<le> j\<close> and
  \<^verbatim>\<open>s.replace(c, "")\<close> for a one-character \<open>c\<close>.\<close>

definition startswith :: "string \<Rightarrow> string \<Rightarrow> bool" where
  "startswith s p = (take (length p) s = p)"

definition endswith :: "string \<Rightarrow> string \<Rightarrow> bool" where
  "endswith s p = (length p \<le> length s \<and> drop (length s - length p) s = p)"

definition slice :: "nat \<Rightarrow> nat \<Rightarrow> string \<Rightarrow> string" where
  "slice i j s = take (j - i) (drop i s)"

definition replace_char_empty :: "char \<Rightarrow> string \<Rightarrow> string" where
  "replace_char_empty c s = filter (\<lambda>x. x \<noteq> c) s"

text \<open>\<^verbatim>\<open>range(0, n, 4)\<close>.\<close>

definition range_step4 :: "nat \<Rightarrow> nat list" where
  "range_step4 n = map (\<lambda>k. 4 * k) [0 ..< (n + 3) div 4]"

section \<open>\<^verbatim>\<open>os.path\<close> (posixpath)\<close>

text \<open>
  \<^verbatim>\<open>os.path.join(a, *p)\<close>: a component that starts with a slash discards what was
  joined so far; a separator is inserted unless the path so far is empty or already
  ends with one. Called with no argument at all it raises \<open>TypeError\<close>.
\<close>

definition join_step :: "string \<Rightarrow> string \<Rightarrow> string" where
  "join_step b path =
     (if startswith b ''/'' then b
      else if path = [] \<or> endswith path ''/'' then path @ b
      else path @ ''/'' @ b)"

fun os_path_join :: "string list \<Rightarrow> error + string" where
  "os_path_join [] = Inl TypeError"
| "os_path_join (a # p) = Inr (fold join_step p a)"

definition join2 :: "string \<Rightarrow> string \<Rightarrow> string" where
  "join2 a b = join_step b a"


section \<open>\<^verbatim>\<open>common/utils.py\<close>: \<^verbatim>\<open>uuid_to_path\<close>\<close>

text \<open>
  \<^verbatim>\<open>
  def uuid_to_path(uuid):
      uuid = uuid.replace("-", "")
      path = [uuid[i:i + 4] for i in range(0, len(uuid), 4)]
      path = os.path.join(*path)
      return path
  \<close>
\<close>

definition uuid_to_path :: "string \<Rightarrow> error + string" where
  "uuid_to_path uuid =
     (let uuid1 = replace_char_empty CHR ''-'' uuid;
          path = map (\<lambda>i. slice i (i + 4) uuid1) (range_step4 (length uuid1))
      in os_path_join path)"

text \<open>
  The canonical textual form of a UUID: 36 characters, dashes exactly at positions
  8, 13, 18 and 23, hexadecimal digits everywhere else.
\<close>

definition is_hex :: "char \<Rightarrow> bool" where
  "is_hex c = (c \<in> set ''0123456789abcdefABCDEF'')"

definition canonical_mask :: "bool list" where
  "canonical_mask =
     replicate 8 False @ [True] @ replicate 4 False @ [True] @ replicate 4 False @ [True]
     @ replicate 4 False @ [True] @ replicate 12 False"

definition canonical_uuid :: "string \<Rightarrow> bool" where
  "canonical_uuid u =
     (map (\<lambda>c. c = CHR ''-'') u = canonical_mask \<and> list_all (\<lambda>c. c = CHR ''-'' \<or> is_hex c) u)"

section \<open>Properties of \<^verbatim>\<open>uuid_to_path\<close>\<close>

lemma range_step4_Suc:
  "range_step4 (n + 4) = 0 # map (\<lambda>i. i + 4) (range_step4 n)"
proof -
  have e: "(n + 4 + 3) div 4 = Suc ((n + 3) div 4)" by simp
  have "[0 ..< Suc ((n + 3) div 4)] = 0 # map Suc [0 ..< (n + 3) div 4]"
    by (metis map_Suc_upt upt_conv_Cons zero_less_Suc)
  then show ?thesis unfolding range_step4_def e by (simp add: comp_def)
qed

definition segments :: "string \<Rightarrow> string list" where
  "segments s = map (\<lambda>i. slice i (i + 4) s) (range_step4 (length s))"

lemma segments_Nil: "segments [] = []"
  by (simp add: segments_def range_step4_def)

lemma segments_step:
  assumes "s \<noteq> []"
  shows "segments s = take 4 s # segments (drop 4 s)"
proof (cases "length s \<le> 4")
  case True
  with assms have "(length s + 3) div 4 = 1" by (cases s) auto
  with True show ?thesis
    by (simp add: segments_def range_step4_def slice_def)
next
  case False
  then obtain n where n: "length s = n + 4"
    by (metis add.commute le_add_diff_inverse nat_le_linear)
  have d: "length (drop 4 s) = n" using n by simp
  have "slice (i + 4) (i + 4 + 4) s = slice i (i + 4) (drop 4 s)" for i
    by (simp add: slice_def add.commute)
  then show ?thesis
    unfolding segments_def n d range_step4_Suc
    by (simp add: slice_def comp_def)
qed

lemma concat_segments: "concat (segments s) = s"
proof (induction "length s" arbitrary: s rule: less_induct)
  case less
  show ?case
  proof (cases "s = []")
    case True
    then show ?thesis by (simp add: segments_Nil)
  next
    case False
    then have "length (drop 4 s) < length s" by (cases s) auto
    then have "concat (segments (drop 4 s)) = drop 4 s" by (rule less)
    with False show ?thesis by (simp add: segments_step)
  qed
qed

lemma segments_nonempty: "x \<in> set (segments s) \<Longrightarrow> x \<noteq> []"
proof (induction "length s" arbitrary: s rule: less_induct)
  case less
  show ?case
  proof (cases "s = []")
    case True
    with less.prems show ?thesis by (simp add: segments_Nil)
  next
    case False
    then have l: "length (drop 4 s) < length s" by (cases s) auto
    from False less.prems have "x = take 4 s \<or> x \<in> set (segments (drop 4 s))"
      by (simp add: segments_step)
    then show ?thesis
    proof
      assume "x = take 4 s"
      with False show ?thesis by simp
    next
      assume "x \<in> set (segments (drop 4 s))"
      with l show ?thesis by (rule less.hyps)
    qed
  qed
qed

lemma segments_subset: "x \<in> set (segments s) \<Longrightarrow> set x \<subseteq> set s"
proof -
  assume "x \<in> set (segments s)"
  then have "set x \<subseteq> set (concat (segments s))" by auto
  then show ?thesis by (simp add: concat_segments)
qed

lemma segments_eq_Nil: "segments s = [] \<longleftrightarrow> s = []"
proof (cases "s = []")
  case True
  then show ?thesis by (simp add: segments_Nil)
next
  case False
  then show ?thesis by (simp add: segments_step)
qed

text \<open>Joining non-empty components that contain no slash only inserts slashes.\<close>

definition plain :: "string \<Rightarrow> bool" where
  "plain x = (x \<noteq> [] \<and> CHR ''/'' \<notin> set x)"

lemma plain_not_startswith: "plain b \<Longrightarrow> \<not> startswith b ''/''"
  by (cases b) (auto simp: plain_def startswith_def)

lemma plain_last: "plain b \<Longrightarrow> last b \<noteq> CHR ''/''"
  unfolding plain_def using last_in_set [of b] by metis

lemma not_endswith_slash: "a \<noteq> [] \<Longrightarrow> last a \<noteq> CHR ''/'' \<Longrightarrow> \<not> endswith a ''/''"
  by (cases a rule: rev_cases) (simp_all add: endswith_def)

lemma join_step_plain:
  "plain b \<Longrightarrow> a \<noteq> [] \<Longrightarrow> last a \<noteq> CHR ''/'' \<Longrightarrow> join_step b a = a @ ''/'' @ b"
  by (simp add: join_step_def plain_not_startswith not_endswith_slash)

lemma fold_join_step_plain:
  assumes "\<forall>x \<in> set p. plain x" and "a \<noteq> []" and "last a \<noteq> CHR ''/''"
  shows "fold join_step p a = a @ concat (map (\<lambda>x. ''/'' @ x) p)"
  using assms
proof (induction p arbitrary: a)
  case Nil
  then show ?case by simp
next
  case (Cons b p)
  then have pb: "plain b" and pp: "\<forall>x \<in> set p. plain x" by simp_all
  have step: "join_step b a = a @ ''/'' @ b"
    using pb Cons.prems(2,3) by (rule join_step_plain)
  have bne: "b \<noteq> []" using pb by (simp add: plain_def)
  have l: "last (a @ ''/'' @ b) \<noteq> CHR ''/''"
    using plain_last [OF pb] bne by simp
  have "fold join_step p (a @ ''/'' @ b) = (a @ ''/'' @ b) @ concat (map (\<lambda>x. ''/'' @ x) p)"
    using pp _ l by (rule Cons.IH) simp
  with step show ?case by simp
qed

lemma filter_slash_joined:
  assumes "\<forall>x \<in> set p. plain x"
  shows "filter (\<lambda>c. c \<noteq> CHR ''/'') (concat (map (\<lambda>x. ''/'' @ x) p)) = concat p"
  using assms by (induction p) (auto simp: plain_def filter_id_conv)

lemma segments_plain:
  assumes "CHR ''/'' \<notin> set s" and "x \<in> set (segments s)"
  shows "plain x"
proof -
  have "x \<noteq> []" using assms(2) by (rule segments_nonempty)
  moreover have "set x \<subseteq> set s" using assms(2) by (rule segments_subset)
  ultimately show ?thesis using assms(1) unfolding plain_def by blast
qed

lemma os_path_join_plain:
  assumes "\<forall>x \<in> set (a # p). plain x"
  shows "\<exists>r. os_path_join (a # p) = Inr r \<and> filter (\<lambda>c. c \<noteq> CHR ''/'') r = concat (a # p)"
proof -
  have pa: "plain a" and pp: "\<forall>x \<in> set p. plain x" using assms by simp_all
  have ane: "a \<noteq> []" using pa by (simp add: plain_def)
  have la: "last a \<noteq> CHR ''/''" using pa by (rule plain_last)
  have f: "fold join_step p a = a @ concat (map (\<lambda>x. ''/'' @ x) p)"
    using pp ane la by (rule fold_join_step_plain)
  have fa: "filter (\<lambda>c. c \<noteq> CHR ''/'') a = a"
    using pa unfolding plain_def filter_id_conv by metis
  have "filter (\<lambda>c. c \<noteq> CHR ''/'') (fold join_step p a) = a @ concat p"
    unfolding f filter_append fa filter_slash_joined [OF pp] ..
  then show ?thesis by simp
qed

lemma uuid_to_path_segments:
  "uuid_to_path u = os_path_join (segments (replace_char_empty CHR ''-'' u))"
  unfolding uuid_to_path_def segments_def Let_def ..

lemma uuid_to_path_empty:
  assumes "replace_char_empty CHR ''-'' u = []"
  shows "uuid_to_path u = Inl TypeError"
  unfolding uuid_to_path_segments assms segments_Nil by simp

lemma uuid_to_path_plain:
  assumes "CHR ''/'' \<notin> set u" and "replace_char_empty CHR ''-'' u \<noteq> []"
  shows "\<exists>r. uuid_to_path u = Inr r
           \<and> filter (\<lambda>c. c \<noteq> CHR ''/'') r = replace_char_empty CHR ''-'' u"
proof -
  define s where "s = replace_char_empty CHR ''-'' u"
  have ns: "CHR ''/'' \<notin> set s" using assms(1) unfolding s_def replace_char_empty_def by simp
  have sne: "s \<noteq> []" using assms(2) unfolding s_def .
  then have "segments s \<noteq> []" by (simp add: segments_eq_Nil)
  then obtain a p where ap: "segments s = a # p" by (cases "segments s") simp_all
  have "\<forall>x \<in> set (a # p). plain x"
    using segments_plain [OF ns] unfolding ap by blast
  then obtain r where r: "os_path_join (a # p) = Inr r"
      "filter (\<lambda>c. c \<noteq> CHR ''/'') r = concat (a # p)"
    using os_path_join_plain by blast
  have "concat (a # p) = s" using concat_segments [of s] unfolding ap .
  with r have "uuid_to_path u = Inr r \<and> filter (\<lambda>c. c \<noteq> CHR ''/'') r = s"
    unfolding uuid_to_path_segments s_def [symmetric] ap by simp
  then show ?thesis unfolding s_def by blast
qed

lemma uuid_to_path_returns:
  assumes "replace_char_empty CHR ''-'' u \<noteq> []"
  shows "\<exists>r. uuid_to_path u = Inr r"
proof -
  have "segments (replace_char_empty CHR ''-'' u) \<noteq> []"
    using assms by (simp add: segments_eq_Nil)
  then obtain a p where "segments (replace_char_empty CHR ''-'' u) = a # p"
    by (cases "segments (replace_char_empty CHR ''-'' u)") simp_all
  then show ?thesis unfolding uuid_to_path_segments by simp
qed

lemma same_mask_filter_inj:
  "map (\<lambda>c. c = d) xs = map (\<lambda>c. c = d) ys \<Longrightarrow>
   filter (\<lambda>c. c \<noteq> d) xs = filter (\<lambda>c. c \<noteq> d) ys \<Longrightarrow> xs = ys"
proof (induction xs arbitrary: ys)
  case Nil
  then show ?case by simp
next
  case (Cons x xs)
  from Cons.prems(1) obtain y ys' where ys: "ys = y # ys'" by (cases ys) simp_all
  from Cons.prems(1) have m: "(x = d) = (y = d)" "map (\<lambda>c. c = d) xs = map (\<lambda>c. c = d) ys'"
    unfolding ys by simp_all
  show ?case
  proof (cases "x = d")
    case True
    with m have "y = d" by simp
    with True Cons.prems(2) have "filter (\<lambda>c. c \<noteq> d) xs = filter (\<lambda>c. c \<noteq> d) ys'"
      unfolding ys by simp
    with m(2) have "xs = ys'" by (rule Cons.IH)
    with True \<open>y = d\<close> show ?thesis unfolding ys by simp
  next
    case False
    with m have "y \<noteq> d" by simp
    with False Cons.prems(2) have "x = y" "filter (\<lambda>c. c \<noteq> d) xs = filter (\<lambda>c. c \<noteq> d) ys'"
      unfolding ys by simp_all
    with m(2) Cons.IH show ?thesis unfolding ys by simp
  qed
qed

lemma canonical_uuid_no_slash: "canonical_uuid u \<Longrightarrow> CHR ''/'' \<notin> set u"
  unfolding canonical_uuid_def list_all_iff is_hex_def by fastforce

lemma canonical_uuid_strip_inj:
  assumes "canonical_uuid x" and "canonical_uuid y"
    and "replace_char_empty CHR ''-'' x = replace_char_empty CHR ''-'' y"
  shows "x = y"
proof -
  have "map (\<lambda>c. c = CHR ''-'') x = map (\<lambda>c. c = CHR ''-'') y"
    using assms(1,2) unfolding canonical_uuid_def by simp
  then show ?thesis using assms(3) unfolding replace_char_empty_def
    by (rule same_mask_filter_inj)
qed

subsection \<open>Claim C10: no path for an identifier without alphanumeric content\<close>

text \<open>
  Claim C10. \<^verbatim>\<open>uuid_to_path\<close> is partial: for the empty string and for every string
  that consists of dashes only, the list of four-character segments is empty,
  \<^verbatim>\<open>os.path.join(*path)\<close> is called without arguments and raises; for every other
  string it returns a path. The precondition of \<^verbatim>\<open>uuid_to_path\<close> is a non-empty
  dash-stripped identifier.
\<close>

theorem uuid_to_path_partial_at_empty:
  "(set u \<subseteq> {CHR ''-''} \<longrightarrow> uuid_to_path u = Inl TypeError) \<and>
   (\<not> set u \<subseteq> {CHR ''-''} \<longrightarrow> (\<exists>p. uuid_to_path u = Inr p))"
proof -
  have e: "replace_char_empty CHR ''-'' u = [] \<longleftrightarrow> set u \<subseteq> {CHR ''-''}"
    unfolding replace_char_empty_def filter_empty_conv by blast
  show ?thesis using uuid_to_path_empty [of u] uuid_to_path_returns [of u] e by blast
qed

text \<open>The empty string and \<^verbatim>\<open>"--"\<close> raise, \<^verbatim>\<open>"a-b"\<close> returns.\<close>

theorem uuid_to_path_partial_at_empty_witness:
  "set '''' \<subseteq> {CHR ''-''} \<and> uuid_to_path '''' = Inl TypeError
   \<and> set ''--'' \<subseteq> {CHR ''-''} \<and> uuid_to_path ''--'' = Inl TypeError
   \<and> \<not> set ''a-b'' \<subseteq> {CHR ''-''} \<and> (\<exists>p. uuid_to_path ''a-b'' = Inr p)"
  using uuid_to_path_partial_at_empty [of "''''"] uuid_to_path_partial_at_empty [of "''--''"]
    uuid_to_path_partial_at_empty [of "''a-b''"]
  by simp

subsection \<open>Claim C1: injectivity of the sharding\<close>

text \<open>
  As stated, claim C1 (\<^verbatim>\<open>uuid_to_path(X) == uuid_to_path(Y)\<close> if and only if
  \<^verbatim>\<open>X == Y\<close>, for every pair of UUID strings) does not hold: the function removes the
  dashes first, so the dashed and the undashed spelling of one UUID, two different
  strings, are mapped to the same path.
\<close>

theorem uuid_to_path_collision_counterexample:
  "uuid_to_path ''e0a41934-c1d7-45ba-9a95-a7531c063ed1''
     = uuid_to_path ''e0a41934c1d745ba9a95a7531c063ed1''
   \<and> ''e0a41934-c1d7-45ba-9a95-a7531c063ed1'' \<noteq> ''e0a41934c1d745ba9a95a7531c063ed1''"
  by (simp add: uuid_to_path_def replace_char_empty_def Let_def)

text \<open>
  Claim C1, amended. For strings without a slash, \<^verbatim>\<open>uuid_to_path\<close> is injective up to
  dashes: two identifiers have the same sharded path exactly when they are equal once
  their dashes are removed. In particular it is injective on UUIDs in canonical
  8-4-4-4-12 form, where the dashes sit at fixed positions.
\<close>

theorem uuid_to_path_injective_up_to_dashes:
  "(CHR ''/'' \<notin> set X \<and> CHR ''/'' \<notin> set Y \<longrightarrow>
      (uuid_to_path X = uuid_to_path Y
         \<longleftrightarrow> replace_char_empty CHR ''-'' X = replace_char_empty CHR ''-'' Y)) \<and>
   (canonical_uuid X \<and> canonical_uuid Y \<longrightarrow> (uuid_to_path X = uuid_to_path Y \<longleftrightarrow> X = Y))"
proof -
  have main: "uuid_to_path X = uuid_to_path Y
         \<longleftrightarrow> replace_char_empty CHR ''-'' X = replace_char_empty CHR ''-'' Y"
    if nx: "CHR ''/'' \<notin> set X" and ny: "CHR ''/'' \<notin> set Y" for X Y
  proof
    assume eq: "uuid_to_path X = uuid_to_path Y"
    show "replace_char_empty CHR ''-'' X = replace_char_empty CHR ''-'' Y"
    proof (cases "replace_char_empty CHR ''-'' X = []")
      case True
      then have "uuid_to_path Y = Inl TypeError" using eq uuid_to_path_empty [of X] by simp
      then have "replace_char_empty CHR ''-'' Y = []"
        using uuid_to_path_returns [of Y] by fastforce
      with True show ?thesis by simp
    next
      case False
      then obtain r where r: "uuid_to_path X = Inr r"
        "filter (\<lambda>c. c \<noteq> CHR ''/'') r = replace_char_empty CHR ''-'' X"
        using uuid_to_path_plain [OF nx] by blast
      have "replace_char_empty CHR ''-'' Y \<noteq> []"
        using uuid_to_path_empty [of Y] eq r(1) by fastforce
      then obtain r' where r': "uuid_to_path Y = Inr r'"
        "filter (\<lambda>c. c \<noteq> CHR ''/'') r' = replace_char_empty CHR ''-'' Y"
        using uuid_to_path_plain [OF ny] by blast
      from eq r(1) r'(1) have "r = r'" by simp
      with r(2) r'(2) show ?thesis by simp
    qed
  next
    assume "replace_char_empty CHR ''-'' X = replace_char_empty CHR ''-'' Y"
    then show "uuid_to_path X = uuid_to_path Y" unfolding uuid_to_path_segments by simp
  qed
  have canon: "uuid_to_path X = uuid_to_path Y \<longleftrightarrow> X = Y"
    if cx: "canonical_uuid X" and cy: "canonical_uuid Y"
  proof
    assume "uuid_to_path X = uuid_to_path Y"
    then have "replace_char_empty CHR ''-'' X = replace_char_empty CHR ''-'' Y"
      using main [OF canonical_uuid_no_slash [OF cx] canonical_uuid_no_slash [OF cy]] by simp
    with cx cy show "X = Y" by (rule canonical_uuid_strip_inj)
  next
    assume "X = Y" then show "uuid_to_path X = uuid_to_path Y" by simp
  qed
  show ?thesis using main [of X Y] canon by blast
qed

text \<open>
  Two spellings that differ in dashes only collide; two canonical UUIDs that differ in
  the last digit do not.
\<close>

theorem uuid_to_path_injective_up_to_dashes_witness:
  "CHR ''/'' \<notin> set ''e0a4-1934'' \<and> CHR ''/'' \<notin> set ''e0a41934''
   \<and> uuid_to_path ''e0a4-1934'' = uuid_to_path ''e0a41934''
   \<and> canonical_uuid ''e0a41934-c1d7-45ba-9a95-a7531c063ed1''
   \<and> canonical_uuid ''e0a41934-c1d7-45ba-9a95-a7531c063ed2''
   \<and> uuid_to_path ''e0a41934-c1d7-45ba-9a95-a7531c063ed1''
       \<noteq> uuid_to_path ''e0a41934-c1d7-45ba-9a95-a7531c063ed2''"
proof -
  have a: "CHR ''/'' \<notin> set ''e0a4-1934'' \<and> CHR ''/'' \<notin> set ''e0a41934''" by simp
  have b: "replace_char_empty CHR ''-'' ''e0a4-1934'' = replace_char_empty CHR ''-'' ''e0a41934''"
    by (simp add: replace_char_empty_def)
  have c: "canonical_uuid ''e0a41934-c1d7-45ba-9a95-a7531c063ed1''"
    by code_simp
  have d: "canonical_uuid ''e0a41934-c1d7-45ba-9a95-a7531c063ed2''"
    by code_simp
  have e: "''e0a41934-c1d7-45ba-9a95-a7531c063ed1'' \<noteq> ''e0a41934-c1d7-45ba-9a95-a7531c063ed2''"
    by simp
  show ?thesis
    using uuid_to_path_injective_up_to_dashes [of "''e0a4-1934''" "''e0a41934''"]
      uuid_to_path_injective_up_to_dashes [of "''e0a41934-c1d7-45ba-9a95-a7531c063ed1''"
        "''e0a41934-c1d7-45ba-9a95-a7531c063ed2''"] a b c d e
    by blast
qed

section \<open>More of \<^verbatim>\<open>os.path\<close> and of Python strings\<close>

text \<open>\<^verbatim>\<open>s.split(c)\<close> for a one-character separator and \<^verbatim>\<open>sep.join(xs)\<close>.\<close>

fun split_on :: "char \<Rightarrow> string \<Rightarrow> string list" where
  "split_on c [] = [[]]"
| "split_on c (x # xs) =
     (if x = c then [] # split_on c xs
      else (case split_on c xs of [] \<Rightarrow> [[x]] | y # ys \<Rightarrow> (x # y) # ys))"




text \<open>\<^verbatim>\<open>os.path.commonprefix\<close>: the longest common prefix, character by character.\<close>

fun lcp :: "string \<Rightarrow> string \<Rightarrow> string" where
  "lcp (x # xs) (y # ys) = (if x = y then x # lcp xs ys else [])"
| "lcp _ _ = []"

definition commonprefix :: "string list \<Rightarrow> string" where
  "commonprefix m = (case m of [] \<Rightarrow> [] | x # xs \<Rightarrow> fold lcp xs x)"



section \<open>The environment of the import command\<close>

subsection \<open>File system\<close>

text \<open>
  The file system is a table from absolute paths, given as their lists of components,
  to nodes. A node carries its owning user and group; a regular file also carries
  its size in bytes. The root directory is always present and is not listed. Paths are
  resolved lexically against the root: symbolic links, permissions and a working
  directory other than the root are not modelled.
\<close>

type_synonym path = "string list"

datatype node = File nat nat nat | Dir nat nat

type_synonym filesystem = "(path \<times> node) list"

definition resolve_step :: "string \<Rightarrow> path \<Rightarrow> path" where
  "resolve_step c acc =
     (if c = [] \<or> c = ''.'' then acc else if c = ''..'' then butlast acc else acc @ [c])"

definition resolve :: "string \<Rightarrow> path" where
  "resolve p = fold resolve_step (split_on CHR ''/'' p) []"

definition lookup :: "filesystem \<Rightarrow> path \<Rightarrow> node option" where
  "lookup f p = (if p = [] then Some (Dir 0 0) else map_of f p)"

definition is_dir :: "node option \<Rightarrow> bool" where
  "is_dir n = (case n of Some (Dir _ _) \<Rightarrow> True | _ \<Rightarrow> False)"

definition is_file :: "node option \<Rightarrow> bool" where
  "is_file n = (case n of Some (File _ _ _) \<Rightarrow> True | _ \<Rightarrow> False)"

definition under :: "path \<Rightarrow> path \<Rightarrow> bool" where
  "under d q = (take (length d) q = d)"

definition listdir :: "filesystem \<Rightarrow> path \<Rightarrow> string list" where
  "listdir f d = map (\<lambda>e. last (fst e)) (filter (\<lambda>e. fst e \<noteq> [] \<and> butlast (fst e) = d) f)"

definition prefixes_of :: "path \<Rightarrow> path list" where
  "prefixes_of p = map (\<lambda>n. take n p) [1 ..< Suc (length p)]"

fun set_owner :: "nat \<Rightarrow> nat \<Rightarrow> node \<Rightarrow> node" where
  "set_owner u g (File _ _ s) = File u g s"
| "set_owner u g (Dir _ _) = Dir u g"


subsection \<open>Database rows\<close>

record location =
  location_uuid :: string
  full_path :: string

record pipeline =
  pipeline_uuid :: string

record package =
  uuid :: string
  package_type :: string
  status :: string
  package_size :: nat
  origin_pipeline :: "pipeline option"
  current_location :: location
  current_path :: string

subsection \<open>The world and the external programs\<close>

text \<open>
  The state the command reads and writes: the file system, the tables of the database,
  the password database, the lines waiting on standard input and the identity of the
  process. \<open>concurrent_commits\<close> holds the rows that other importers commit while the
  command runs: one batch becomes visible immediately before each \<^verbatim>\<open>save()\<close> of this
  process.
\<close>

record world =
  files :: filesystem
  packages :: "package list"
  concurrent_commits :: "package list list"
  settings :: "(string \<times> string) list"
  locations :: "location list"
  pipelines :: "pipeline list"
  passwd :: "(string \<times> nat \<times> nat) list"
  stdin :: "string list"
  euid :: nat
  egid :: nat

text \<open>
  The libraries and programs outside the repository are parameters of the model:
  the name \<^verbatim>\<open>tempfile.mkdtemp\<close> picks, what \<^verbatim>\<open>tarfile\<close> finds in an archive and writes
  when it extracts it (archive path, target directory), the verdict of \<^verbatim>\<open>bagit\<close> on a
  directory (\<open>None\<close> when \<^verbatim>\<open>bagit.Bag\<close> raises), and the exit status of \<^verbatim>\<open>rsync\<close> with what
  it leaves on disk (\<open>None\<close> when the program cannot be started).
\<close>

record env =
  mkdtemp :: "filesystem \<Rightarrow> string"
  tarfile_extract :: "string \<Rightarrow> string \<Rightarrow> filesystem \<Rightarrow> (error + string list) \<times> filesystem"
  bagit_is_valid :: "string \<Rightarrow> filesystem \<Rightarrow> bool option"
  rsync :: "string \<Rightarrow> string \<Rightarrow> filesystem \<Rightarrow> int option \<times> filesystem"

subsection \<open>Statements, exceptions and \<^verbatim>\<open>try\<close>/\<^verbatim>\<open>except\<close>\<close>

type_synonym 'a io = "world \<Rightarrow> (error + 'a) \<times> world"

definition return :: "'a \<Rightarrow> 'a io" where
  "return x w = (Inr x, w)"

definition raise :: "error \<Rightarrow> 'a io" where
  "raise e w = (Inl e, w)"

definition bind :: "'a io \<Rightarrow> ('a \<Rightarrow> 'b io) \<Rightarrow> 'b io" where
  "bind m k w = (case m w of (Inl e, w1) \<Rightarrow> (Inl e, w1) | (Inr x, w1) \<Rightarrow> k x w1)"

definition try_except :: "'a io \<Rightarrow> error \<Rightarrow> 'a io \<Rightarrow> 'a io" where
  "try_except m caught handler w =
     (case m w of
        (Inl e, w1) \<Rightarrow> if e = caught then handler w1 else (Inl e, w1)
      | (Inr x, w1) \<Rightarrow> (Inr x, w1))"

subsection \<open>Library calls\<close>


definition os_path_isfile :: "string \<Rightarrow> world \<Rightarrow> bool" where
  "os_path_isfile p w = is_file (lookup (files w) (resolve p))"

definition os_path_isdir :: "string \<Rightarrow> world \<Rightarrow> bool" where
  "os_path_isdir p w = is_dir (lookup (files w) (resolve p))"



text \<open>\<^verbatim>\<open>os.chown(path, uid, gid)\<close> on an existing path.\<close>

definition os_chown :: "path \<Rightarrow> nat \<Rightarrow> nat \<Rightarrow> filesystem \<Rightarrow> filesystem" where
  "os_chown p u g f = map (\<lambda>e. if fst e = p then (fst e, set_owner u g (snd e)) else e) f"

text \<open>
  \<^verbatim>\<open>os.walk(top)\<close>: one triple (directory, names of its subdirectories, names of its
  other entries) for the top directory and for every directory below it; nothing when
  the top is not a directory.
\<close>

definition os_walk :: "filesystem \<Rightarrow> path \<Rightarrow> (path \<times> string list \<times> string list) list" where
  "os_walk f d =
     (if is_dir (lookup f d) then
        map (\<lambda>r. (r, filter (\<lambda>n. is_dir (lookup f (r @ [n]))) (listdir f r),
                     filter (\<lambda>n. \<not> is_dir (lookup f (r @ [n]))) (listdir f r)))
            (d # map fst (filter (\<lambda>e. is_dir (Some (snd e)) \<and> under d (fst e) \<and> fst e \<noteq> d) f))
      else [])"

definition getpwnam :: "string \<Rightarrow> (nat \<times> nat) io" where
  "getpwnam name w = (case map_of (passwd w) name of None \<Rightarrow> (Inl KeyError, w) | Some ug \<Rightarrow> (Inr ug, w))"


text \<open>\<^verbatim>\<open>tempfile.mkdtemp()\<close> creates a new directory and returns its name.\<close>

definition tempfile_mkdtemp :: "env \<Rightarrow> string io" where
  "tempfile_mkdtemp E w =
     (let d = mkdtemp E (files w) in
      if lookup (files w) (resolve d) \<noteq> None then (Inl OSError, w)
      else (Inr d, w\<lparr>files := files w @ [(resolve d, Dir (euid w) (egid w))]\<rparr>))"




text \<open>
  Modelled from the spec: the record store of section 6 (\<^verbatim>\<open>locations/models\<close> is not
  part of the sources at hand). \<^verbatim>\<open>save\<close> inserts the row and raises the
  uniqueness-violation signal when a row with the same UUID is present, since the UUID is
  unique across packages (section 3); \<^verbatim>\<open>filter(uuid=...).delete()\<close> removes every row
  with that UUID.
\<close>

definition Package_save :: "package \<Rightarrow> unit io" where
  "Package_save inst w =
     (let visible = packages w @ (case concurrent_commits w of [] \<Rightarrow> [] | b # _ \<Rightarrow> b);
          rest = tl (concurrent_commits w) in
      if list_ex (\<lambda>p. uuid p = uuid inst) visible
      then (Inl IntegrityError, w\<lparr>packages := visible, concurrent_commits := rest\<rparr>)
      else (Inr (), w\<lparr>packages := visible @ [inst], concurrent_commits := rest\<rparr>))"

definition Package_objects_filter_delete :: "string \<Rightarrow> unit io" where
  "Package_objects_filter_delete u w =
     (Inr (), w\<lparr>packages := filter (\<lambda>p. uuid p \<noteq> u) (packages w)\<rparr>)"


section \<open>\<^verbatim>\<open>common/management/commands/import_aip.py\<close>\<close>


definition is_compressed :: "string \<Rightarrow> world \<Rightarrow> bool" where
  "is_compressed aip_path w = os_path_isfile aip_path w"

definition decompress :: "env \<Rightarrow> string \<Rightarrow> string io" where
  "decompress E aip_path =
     (if \<not> endswith aip_path ''.tar.gz'' then
        raise (ImportAIPException (''Unable to decompress the AIP at '' @ aip_path))
      else
        bind (tempfile_mkdtemp E) (\<lambda>temp_dir.
        bind (\<lambda>w. case tarfile_extract E aip_path temp_dir (files w) of
                     (r, f) \<Rightarrow> (r, w\<lparr>files := f\<rparr>)) (\<lambda>names.
        return (join2 temp_dir (commonprefix names)))))"


definition decompress_aip :: "env \<Rightarrow> string \<Rightarrow> string io" where
  "decompress_aip E aip_path w =
     (if is_compressed aip_path w then decompress E aip_path w else return aip_path w)"






definition fix_ownership :: "package \<Rightarrow> string \<Rightarrow> unit io" where
  "fix_ownership aip_model_inst aip_storage_location_path =
     (let first_uuid_dir = slice 0 4 (uuid aip_model_inst) in
      bind (getpwnam ''archivematica'') (\<lambda>(am_uid, _).
      bind (getpwnam ''archivematica'') (\<lambda>(_, am_gid).
        (\<lambda>w. (Inr (), w\<lparr>files :=
           fold (\<lambda>(root, dirs, fls) f.
                   fold (\<lambda>file_name. os_chown (root @ [file_name]) am_uid am_uid) fls
                     (fold (\<lambda>dir_name. os_chown (root @ [dir_name]) am_uid am_gid) dirs
                        (os_chown root am_uid am_gid f)))
                (os_walk (files w) (resolve (join2 aip_storage_location_path first_uuid_dir)))
                (files w)\<rparr>)))))"




definition save_aip_model_instance :: "package \<Rightarrow> unit io" where
  "save_aip_model_instance aip_model_inst =
     try_except (Package_save aip_model_inst) IntegrityError
       (bind (Package_objects_filter_delete (uuid aip_model_inst)) (\<lambda>_.
        Package_save aip_model_inst))"



section \<open>Example inputs\<close>

text \<open>
  A small installation used to run the definitions: an uncompressed bag in \<^verbatim>\<open>/tmp/bag\<close>
  whose METS file carries the UUID \<^verbatim>\<open>e0a41934-c1d7-45ba-9a95-a7531c063ed1\<close>, a file that is
  not a \<^verbatim>\<open>.tar.gz\<close> archive, one AIP storage location \<^verbatim>\<open>L1\<close> at \<^verbatim>\<open>/var/aips\<close> that is also
  the default, one pipeline, and the \<^verbatim>\<open>archivematica\<close> account with uid 333 and gid 444.
  \<open>example_rsync\<close> copies the source tree below the destination and exits with 0.
\<close>

definition example_bag_files :: filesystem where
  "example_bag_files =
     [([''tmp''], Dir 0 0),
      ([''tmp'', ''archive.zip''], File 0 0 900),
      ([''tmp'', ''bag''], Dir 0 0),
      ([''tmp'', ''bag'', ''bagit.txt''], File 0 0 55),
      ([''tmp'', ''bag'', ''data''], Dir 0 0),
      ([''tmp'', ''bag'', ''data'', ''METS.e0a41934-c1d7-45ba-9a95-a7531c063ed1.xml''], File 0 0 700),
      ([''tmp'', ''bag'', ''data'', ''objects''], Dir 0 0),
      ([''tmp'', ''bag'', ''data'', ''objects'', ''a.txt''], File 0 0 300),
      ([''var''], Dir 0 0),
      ([''var'', ''aips''], Dir 0 0)]"

definition example_rsync :: "string \<Rightarrow> string \<Rightarrow> filesystem \<Rightarrow> int option \<times> filesystem" where
  "example_rsync source destination f =
     (Some 0, f @ map (\<lambda>e. (resolve destination @ drop (length (resolve source)) (fst e), snd e))
                    (filter (\<lambda>e. under (resolve source) (fst e)) f))"

definition example_env :: env where
  "example_env =
     \<lparr>mkdtemp = (\<lambda>f. ''/tmp/tmpAbC''),
      tarfile_extract = (\<lambda>a t f. (Inl TarError, f)),
      bagit_is_valid = (\<lambda>p f. Some True),
      rsync = example_rsync\<rparr>"

definition example_world :: world where
  "example_world =
     \<lparr>files = example_bag_files, packages = [], concurrent_commits = [],
      settings = [(''default_AS_location'', ''L1'')],
      locations = [\<lparr>location_uuid = ''L1'', full_path = ''/var/aips''\<rparr>],
      pipelines = [\<lparr>pipeline_uuid = ''P1''\<rparr>],
      passwd = [(''archivematica'', 333, 444)],
      stdin = [], euid = 0, egid = 0\<rparr>"

section \<open>Basic facts about statements\<close>

lemma bind_return: "bind (return x) k w = k x w"
  by (simp add: bind_def return_def)

lemma bind_raise: "bind (raise e) k w = (Inl e, w)"
  by (simp add: bind_def raise_def)

lemma bind_Inr: "m w = (Inr x, w1) \<Longrightarrow> bind m k w = k x w1"
  by (simp add: bind_def)

lemma bind_Inl: "m w = (Inl e, w1) \<Longrightarrow> bind m k w = (Inl e, w1)"
  by (simp add: bind_def)



lemma is_dir_not_is_file: "is_dir n \<Longrightarrow> \<not> is_file n"
  by (auto simp: is_dir_def is_file_def split: option.splits node.splits)

text \<open>
  Claim C5. A source that is a file is accepted by the decompression step only with the
  extension \<^verbatim>\<open>.tar.gz\<close>: for every other path \<^verbatim>\<open>decompress\<close> raises the import error,
  without touching anything, and so does \<^verbatim>\<open>decompress_aip\<close> on a file; on a directory
  \<^verbatim>\<open>decompress_aip\<close> returns the path unchanged and attempts no decompression.
\<close>

theorem decompress_requires_tar_gz:
  "(\<not> endswith aip_path ''.tar.gz'' \<longrightarrow>
      decompress E aip_path w =
        (Inl (ImportAIPException (''Unable to decompress the AIP at '' @ aip_path)), w)) \<and>
   (os_path_isfile aip_path w \<and> \<not> endswith aip_path ''.tar.gz'' \<longrightarrow>
      decompress_aip E aip_path w =
        (Inl (ImportAIPException (''Unable to decompress the AIP at '' @ aip_path)), w)) \<and>
   (os_path_isdir aip_path w \<longrightarrow> decompress_aip E aip_path w = (Inr aip_path, w))"
proof -
  have a: "decompress E aip_path w =
        (Inl (ImportAIPException (''Unable to decompress the AIP at '' @ aip_path)), w)"
    if "\<not> endswith aip_path ''.tar.gz''"
    using that by (simp add: decompress_def raise_def)
  have b: "decompress_aip E aip_path w = decompress E aip_path w" if "os_path_isfile aip_path w"
    using that by (simp add: decompress_aip_def is_compressed_def)
  have c: "decompress_aip E aip_path w = (Inr aip_path, w)" if "os_path_isdir aip_path w"
  proof -
    have "\<not> os_path_isfile aip_path w"
      using that unfolding os_path_isdir_def os_path_isfile_def by (rule is_dir_not_is_file)
    then show ?thesis by (simp add: decompress_aip_def is_compressed_def return_def)
  qed
  show ?thesis using a b c by simp
qed

theorem decompress_requires_tar_gz_witness:
  "\<not> endswith ''/tmp/archive.zip'' ''.tar.gz''
   \<and> os_path_isfile ''/tmp/archive.zip'' example_world
   \<and> decompress example_env ''/tmp/archive.zip'' example_world =
       (Inl (ImportAIPException ''Unable to decompress the AIP at /tmp/archive.zip''), example_world)
   \<and> decompress_aip example_env ''/tmp/archive.zip'' example_world =
       (Inl (ImportAIPException ''Unable to decompress the AIP at /tmp/archive.zip''), example_world)
   \<and> os_path_isdir ''/tmp/bag'' example_world
   \<and> decompress_aip example_env ''/tmp/bag'' example_world = (Inr ''/tmp/bag'', example_world)"
proof -
  have a: "\<not> endswith ''/tmp/archive.zip'' ''.tar.gz''" by (simp add: endswith_def)
  have b: "os_path_isfile ''/tmp/archive.zip'' example_world" by code_simp
  have c: "os_path_isdir ''/tmp/bag'' example_world" by code_simp
  show ?thesis
    using a b c
      decompress_requires_tar_gz [of "''/tmp/archive.zip''" example_env example_world]
      decompress_requires_tar_gz [of "''/tmp/bag''" example_env example_world]
    by simp
qed

section \<open>Persistence\<close>

definition next_batch :: "world \<Rightarrow> package list" where
  "next_batch w = (case concurrent_commits w of [] \<Rightarrow> [] | b # _ \<Rightarrow> b)"

definition has_uuid :: "string \<Rightarrow> package list \<Rightarrow> bool" where
  "has_uuid u rows = list_ex (\<lambda>p. uuid p = u) rows"

lemma Package_save_ok:
  assumes "\<not> has_uuid (uuid inst) (packages w @ next_batch w)"
  shows "Package_save inst w =
    (Inr (), w\<lparr>packages := packages w @ next_batch w @ [inst],
               concurrent_commits := tl (concurrent_commits w)\<rparr>)"
  using assms by (simp add: Package_save_def has_uuid_def next_batch_def Let_def)

lemma Package_save_conflict:
  assumes "has_uuid (uuid inst) (packages w @ next_batch w)"
  shows "Package_save inst w =
    (Inl IntegrityError, w\<lparr>packages := packages w @ next_batch w,
                           concurrent_commits := tl (concurrent_commits w)\<rparr>)"
  using assms by (simp add: Package_save_def has_uuid_def next_batch_def Let_def)

lemma has_uuid_filter: "\<not> has_uuid u (filter (\<lambda>p. uuid p \<noteq> u) rows)"
  by (simp add: has_uuid_def list_ex_iff)

lemma has_uuid_append: "has_uuid u (xs @ ys) \<longleftrightarrow> has_uuid u xs \<or> has_uuid u ys"
  by (auto simp: has_uuid_def list_ex_iff)

text \<open>
  Claim C6. When the first \<^verbatim>\<open>save()\<close> meets no row with the UUID of the new record, the
  record is inserted at once and no row is deleted. When it raises the uniqueness
  violation, every row with that UUID is deleted and the save is attempted exactly once
  more: the record is inserted unless a row with the same UUID has been committed in
  between, and then the second uniqueness violation escapes uncaught, with the record
  not inserted.
\<close>

theorem save_aip_model_instance_retries_once:
  "(\<not> has_uuid (uuid inst) (packages w @ next_batch w) \<longrightarrow>
      save_aip_model_instance inst w =
        (Inr (), w\<lparr>packages := packages w @ next_batch w @ [inst],
                   concurrent_commits := tl (concurrent_commits w)\<rparr>)) \<and>
   (has_uuid (uuid inst) (packages w @ next_batch w) \<longrightarrow>
      (let kept = filter (\<lambda>p. uuid p \<noteq> uuid inst) (packages w @ next_batch w);
           w1 = w\<lparr>packages := kept, concurrent_commits := tl (concurrent_commits w)\<rparr>
       in save_aip_model_instance inst w =
            (if has_uuid (uuid inst) (next_batch w1)
             then (Inl IntegrityError,
                   w1\<lparr>packages := kept @ next_batch w1,
                      concurrent_commits := tl (concurrent_commits w1)\<rparr>)
             else (Inr (),
                   w1\<lparr>packages := kept @ next_batch w1 @ [inst],
                      concurrent_commits := tl (concurrent_commits w1)\<rparr>))))"
proof (intro conjI impI)
  assume a: "\<not> has_uuid (uuid inst) (packages w @ next_batch w)"
  show "save_aip_model_instance inst w =
        (Inr (), w\<lparr>packages := packages w @ next_batch w @ [inst],
                   concurrent_commits := tl (concurrent_commits w)\<rparr>)"
    unfolding save_aip_model_instance_def try_except_def Package_save_ok [OF a] by simp
next
  assume a: "has_uuid (uuid inst) (packages w @ next_batch w)"
  define kept where "kept = filter (\<lambda>p. uuid p \<noteq> uuid inst) (packages w @ next_batch w)"
  define w1 where "w1 = w\<lparr>packages := kept, concurrent_commits := tl (concurrent_commits w)\<rparr>"
  have del: "Package_objects_filter_delete (uuid inst)
               (w\<lparr>packages := packages w @ next_batch w,
                  concurrent_commits := tl (concurrent_commits w)\<rparr>) = (Inr (), w1)"
    unfolding Package_objects_filter_delete_def w1_def kept_def by (cases w) simp
  have first: "save_aip_model_instance inst w = Package_save inst w1"
    unfolding save_aip_model_instance_def try_except_def Package_save_conflict [OF a]
    by (simp add: bind_def del)
  have p1: "packages w1 = kept" by (simp add: w1_def)
  have second: "Package_save inst w1 =
      (if has_uuid (uuid inst) (next_batch w1)
       then (Inl IntegrityError,
             w1\<lparr>packages := kept @ next_batch w1,
                concurrent_commits := tl (concurrent_commits w1)\<rparr>)
       else (Inr (),
             w1\<lparr>packages := kept @ next_batch w1 @ [inst],
                concurrent_commits := tl (concurrent_commits w1)\<rparr>))"
  proof (cases "has_uuid (uuid inst) (next_batch w1)")
    case True
    then have "has_uuid (uuid inst) (packages w1 @ next_batch w1)" by (simp add: has_uuid_append)
    from Package_save_conflict [OF this] True show ?thesis by (simp add: p1)
  next
    case False
    then have "\<not> has_uuid (uuid inst) (packages w1 @ next_batch w1)"
      using has_uuid_filter [of "uuid inst"] by (simp add: has_uuid_append p1 kept_def)
    from Package_save_ok [OF this] False show ?thesis by (simp add: p1)
  qed
  show "let kept = filter (\<lambda>p. uuid p \<noteq> uuid inst) (packages w @ next_batch w);
           w1 = w\<lparr>packages := kept, concurrent_commits := tl (concurrent_commits w)\<rparr>
       in save_aip_model_instance inst w =
            (if has_uuid (uuid inst) (next_batch w1)
             then (Inl IntegrityError,
                   w1\<lparr>packages := kept @ next_batch w1,
                      concurrent_commits := tl (concurrent_commits w1)\<rparr>)
             else (Inr (),
                   w1\<lparr>packages := kept @ next_batch w1 @ [inst],
                      concurrent_commits := tl (concurrent_commits w1)\<rparr>))"
    unfolding Let_def using first second unfolding w1_def kept_def by simp
qed

definition example_package :: package where
  "example_package =
     \<lparr>uuid = ''e0a41934-c1d7-45ba-9a95-a7531c063ed1'', package_type = ''AIP'',
      status = ''UPLOADED'', package_size = 1000, origin_pipeline = None,
      current_location = \<lparr>location_uuid = ''L1'', full_path = ''/var/aips''\<rparr>,
      current_path = ''e0a4/1934/c1d7/45ba/9a95/a753/1c06/3ed1/bag''\<rparr>"

definition example_old_package :: package where
  "example_old_package = example_package\<lparr>status := ''DELETED'', package_size := 7\<rparr>"

definition example_other_package :: package where
  "example_other_package = example_package\<lparr>uuid := ''11111111-2222-3333-4444-555555555555''\<rparr>"

text \<open>
  An empty table takes the record at the first attempt; a table holding an older row
  with the UUID loses that row and takes the record at the second attempt; when another
  importer commits a row with the UUID between the deletion and the retry, the second
  uniqueness violation escapes.
\<close>

theorem save_aip_model_instance_retries_once_witness:
  "\<not> has_uuid (uuid example_package) (packages example_world @ next_batch example_world)
   \<and> save_aip_model_instance example_package example_world =
       (Inr (), example_world\<lparr>packages := [example_package]\<rparr>)
   \<and> has_uuid (uuid example_package)
       (packages (example_world\<lparr>packages := [example_other_package, example_old_package]\<rparr>)
        @ next_batch (example_world\<lparr>packages := [example_other_package, example_old_package]\<rparr>))
   \<and> save_aip_model_instance example_package
       (example_world\<lparr>packages := [example_other_package, example_old_package]\<rparr>) =
       (Inr (), example_world\<lparr>packages := [example_other_package, example_package]\<rparr>)
   \<and> save_aip_model_instance example_package
       (example_world\<lparr>packages := [example_old_package],
                       concurrent_commits := [[], [example_old_package]]\<rparr>) =
       (Inl IntegrityError, example_world\<lparr>packages := [example_old_package]\<rparr>)"
proof -
  let ?w2 = "example_world\<lparr>packages := [example_other_package, example_old_package]\<rparr>"
  let ?w3 = "example_world\<lparr>packages := [example_old_package],
                       concurrent_commits := [[], [example_old_package]]\<rparr>"
  have u: "uuid example_old_package = uuid example_package"
    "uuid example_other_package \<noteq> uuid example_package"
    by (simp_all add: example_old_package_def example_other_package_def example_package_def)
  have h1: "\<not> has_uuid (uuid example_package) (packages example_world @ next_batch example_world)"
    by (simp add: has_uuid_def next_batch_def example_world_def)
  have h2: "has_uuid (uuid example_package) (packages ?w2 @ next_batch ?w2)"
    using u by (simp add: has_uuid_def next_batch_def example_world_def)
  have h3: "has_uuid (uuid example_package) (packages ?w3 @ next_batch ?w3)"
    using u by (simp add: has_uuid_def next_batch_def example_world_def)
  show ?thesis
    using h1 h2 h3 u
      save_aip_model_instance_retries_once [of example_package example_world]
      save_aip_model_instance_retries_once [of example_package ?w2]
      save_aip_model_instance_retries_once [of example_package ?w3]
    by (simp add: Let_def has_uuid_def next_batch_def example_world_def)
qed

section \<open>Placement: the destination directory\<close>










text \<open>
  The example installation after an earlier placement of the same UUID: the sharded
  destination directory exists, owned by root, and holds a file.
\<close>

definition example_destination :: path where
  "example_destination =
     [''var'', ''aips'', ''e0a4'', ''1934'', ''c1d7'', ''45ba'', ''9a95'', ''a753'', ''1c06'', ''3ed1'']"

definition example_stored_world :: world where
  "example_stored_world =
     example_world\<lparr>files := example_bag_files
        @ map (\<lambda>q. (q, Dir 0 0)) (drop 2 (prefixes_of example_destination))
        @ [(example_destination @ [''old.bin''], File 0 0 9)]\<rparr>"



text \<open>
  Claim C8 says that after \<^verbatim>\<open>fix_ownership\<close> every directory and every file below the
  destination is owned by the uid and the gid of the account \<^verbatim>\<open>archivematica\<close>. At the
  example installation, where the account has uid 333 and gid 444, the code does this
  for the directories below \<^verbatim>\<open>/var/aips/e0a4\<close>, which end up owned by 333:444, but the
  file ends up with group 333, the uid of the account: the loop over the files passes
  \<^verbatim>\<open>am_uid\<close> twice.
\<close>

theorem fix_ownership_gives_files_the_uid_as_group:
  "fst (getpwnam ''archivematica'' example_stored_world) = Inr (333, 444)
   \<and> fst (fix_ownership example_package ''/var/aips'' example_stored_world) = Inr ()
   \<and> lookup (files (snd (fix_ownership example_package ''/var/aips'' example_stored_world)))
        example_destination = Some (Dir 333 444)
   \<and> lookup (files (snd (fix_ownership example_package ''/var/aips'' example_stored_world)))
        (example_destination @ [''old.bin'']) = Some (File 333 333 9)"
  by code_simp

section \<open>What the steps of the import leave untouched\<close>




































section \<open>The database write comes last\<close>













section \<open>Successful imports\<close>















section \<open>Importing a UUID that is already in the table\<close>










section \<open>\<^verbatim>\<open>common/utils.py\<close>: provenance events in a METS document\<close>

text \<open>
  An element of an XML document as \<^verbatim>\<open>lxml\<close> holds it: the namespace and the local name
  of its tag, its attributes, its text and its children.
\<close>

datatype xml = Element string string "(string \<times> string) list" string "xml list"

fun xml_ns :: "xml \<Rightarrow> string" where
  "xml_ns (Element ns tag attrib txt children) = ns"

fun xml_tag :: "xml \<Rightarrow> string" where
  "xml_tag (Element ns tag attrib txt children) = tag"

fun xml_children :: "xml \<Rightarrow> xml list" where
  "xml_children (Element ns tag attrib txt children) = children"

fun append_child :: "xml \<Rightarrow> xml \<Rightarrow> xml" where
  "append_child (Element ns tag attrib txt children) c = Element ns tag attrib txt (children @ [c])"

fun descendants :: "xml \<Rightarrow> xml list" where
  "descendants (Element ns tag attrib txt children) =
     concat (map (\<lambda>c. c # descendants c) children)"

fun string_value :: "xml \<Rightarrow> string" where
  "string_value (Element ns tag attrib txt children) = txt @ concat (map string_value children)"

definition NSMAP_mets :: string where
  "NSMAP_mets = ''http://www.loc.gov/METS/''"

definition NSMAP_premis :: string where
  "NSMAP_premis = ''info:lc/xmlns/premis-v2''"

definition NSMAP_xsi :: string where
  "NSMAP_xsi = ''http://www.w3.org/2001/XMLSchema-instance''"

text \<open>\<^verbatim>\<open>str(n)\<close> for a length.\<close>

fun str_nat :: "nat \<Rightarrow> string" where
  "str_nat n =
     (if n < 10 then [''0123456789'' ! n]
      else str_nat (n div 10) @ [''0123456789'' ! (n mod 10)])"

text \<open>
  The version of the storage service (\<^verbatim>\<open>storage_service.__version__\<close>) is a parameter,
  as are the time and the random UUID an event is stamped with.
\<close>

definition storage_service_agent :: "string \<Rightarrow> string" where
  "storage_service_agent ss_version = ''Archivematica Storage Service-'' @ ss_version"

definition mets_event ::
    "string \<Rightarrow> string \<Rightarrow> string \<Rightarrow> string \<Rightarrow> string \<Rightarrow> string \<Rightarrow> string \<Rightarrow> string \<Rightarrow> xml" where
  "mets_event now event_uuid digiprov_id event_type event_detail event_outcome_detail_note
       agent_type agent_value =
     (let premis_event =
        Element NSMAP_premis ''event''
          [(''version'', ''2.2''),
           (''{'' @ NSMAP_xsi @ ''}schemaLocation'',
            ''info:lc/xmlns/premis-v2 http://www.loc.gov/standards/premis/v2/premis-v2-2.xsd'')] ''''
          [Element NSMAP_premis ''eventIdentifier'' [] ''''
             [Element NSMAP_premis ''eventIdentifierType'' [] ''UUID'' [],
              Element NSMAP_premis ''eventIdentifierValue'' [] event_uuid []],
           Element NSMAP_premis ''eventType'' [] event_type [],
           Element NSMAP_premis ''eventDateTime'' [] now [],
           Element NSMAP_premis ''eventDetail'' [] event_detail [],
           Element NSMAP_premis ''eventOutcomeInformation'' [] ''''
             [Element NSMAP_premis ''eventOutcome'' [] '''' [],
              Element NSMAP_premis ''eventOutcomeDetail'' [] ''''
                [Element NSMAP_premis ''eventOutcomeDetailNote'' [] event_outcome_detail_note []]],
           Element NSMAP_premis ''linkingAgentIdentifier'' [] ''''
             [Element NSMAP_premis ''linkingAgentIdentifierType'' [] agent_type [],
              Element NSMAP_premis ''linkingAgentIdentifierValue'' [] agent_value []]]
      in Element NSMAP_mets ''digiprovMD'' [(''ID'', digiprov_id)] ''''
           [Element NSMAP_mets ''mdWrap'' [(''MDTYPE'', ''PREMIS:EVENT'')] ''''
              [Element NSMAP_mets ''xmlData'' [] '''' [premis_event]]])"

text \<open>
  The XPath query of \<^verbatim>\<open>mets_ss_agent\<close>,
  \<^verbatim>\<open>.//mets:agentIdentifier[mets:agentIdentifierType='T' and mets:agentIdentifierValue='V']\<close>:
  the descendants named \<^verbatim>\<open>agentIdentifier\<close> in the METS namespace that have a child
  \<^verbatim>\<open>agentIdentifierType\<close> and a child \<^verbatim>\<open>agentIdentifierValue\<close>, both in the METS namespace,
  with the given text. (Type and value are taken to hold no quote character.)
\<close>

definition has_child :: "string \<Rightarrow> string \<Rightarrow> string \<Rightarrow> xml \<Rightarrow> bool" where
  "has_child ns tag txt e =
     list_ex (\<lambda>c. xml_ns c = ns \<and> xml_tag c = tag \<and> string_value c = txt) (xml_children e)"

definition xpath_mets_agentIdentifier :: "xml \<Rightarrow> string \<Rightarrow> string \<Rightarrow> xml list" where
  "xpath_mets_agentIdentifier doc agent_type agent_value =
     filter (\<lambda>e. xml_ns e = NSMAP_mets \<and> xml_tag e = ''agentIdentifier''
                 \<and> has_child NSMAP_mets ''agentIdentifierType'' agent_type e
                 \<and> has_child NSMAP_mets ''agentIdentifierValue'' agent_value e)
            (descendants doc)"

definition mets_ss_agent :: "xml \<Rightarrow> string \<Rightarrow> string \<Rightarrow> string \<Rightarrow> xml option" where
  "mets_ss_agent doc digiprov_id agent_value agent_type =
     (let existing_agent = xpath_mets_agentIdentifier doc agent_type agent_value in
      if existing_agent \<noteq> [] then None
      else Some
        (Element NSMAP_mets ''digiprovMD'' [(''ID'', digiprov_id)] ''''
           [Element NSMAP_mets ''mdWrap'' [(''MDTYPE'', ''PREMIS:AGENT'')] ''''
              [Element NSMAP_mets ''xmlData'' [] ''''
                 [Element NSMAP_premis ''agent'' [] ''''
                    [Element NSMAP_premis ''agentIdentifier'' [] ''''
                       [Element NSMAP_premis ''agentIdentifierType'' [] agent_type [],
                        Element NSMAP_premis ''agentIdentifierValue'' [] agent_value []],
                     Element NSMAP_premis ''agentName'' [] ''Archivematica Storage Service'' [],
                     Element NSMAP_premis ''agentType'' [] ''software'' []]]]]))"

definition mets_add_event ::
    "string \<Rightarrow> string \<Rightarrow> string \<Rightarrow> xml \<Rightarrow> string \<Rightarrow> string \<Rightarrow> string \<Rightarrow> xml" where
  "mets_add_event ss_version now event_uuid amdsec event_type event_detail
       event_outcome_detail_note =
     (let digiprov_id = ''digiprovMD_'' @ str_nat (length (xml_children amdsec));
          event = mets_event now event_uuid digiprov_id event_type event_detail
                    event_outcome_detail_note ''storage service'' (storage_service_agent ss_version);
          amdsec1 = append_child amdsec event;
          digiprov_id1 = ''digiprovMD_'' @ str_nat (length (xml_children amdsec1));
          digiprov_agent = mets_ss_agent amdsec1 digiprov_id1 (storage_service_agent ss_version)
                             ''storage service''
      in case digiprov_agent of
           None \<Rightarrow> amdsec1
         | Some agent \<Rightarrow> append_child amdsec1 agent)"

text \<open>
  The agents a document records: type and value of every \<^verbatim>\<open>agentIdentifier\<close> element in the
  PREMIS namespace.
\<close>

fun child_text :: "string \<Rightarrow> string \<Rightarrow> xml \<Rightarrow> string" where
  "child_text ns tag e =
     concat (map string_value (filter (\<lambda>c. xml_ns c = ns \<and> xml_tag c = tag) (xml_children e)))"

definition agent_identifiers :: "xml \<Rightarrow> (string \<times> string) list" where
  "agent_identifiers doc =
     map (\<lambda>e. (child_text NSMAP_premis ''agentIdentifierType'' e,
                child_text NSMAP_premis ''agentIdentifierValue'' e))
       (filter (\<lambda>e. xml_ns e = NSMAP_premis \<and> xml_tag e = ''agentIdentifier'') (descendants doc))"

definition example_amdsec :: xml where
  "example_amdsec = Element NSMAP_mets ''amdSec'' [(''ID'', ''amdSec_1'')] '''' []"

definition example_amdsec_after_two_events :: xml where
  "example_amdsec_after_two_events =
     mets_add_event ''0.11.0'' ''2018-01-02T10:00:05'' ''6f9e0f8c-2b7e-4d55-9d6a-0c1d2e3f4a5b''
       (mets_add_event ''0.11.0'' ''2018-01-02T10:00:00'' ''0b5d1f0a-8c3f-4e9a-b1de-3a4b5c6d7e8f''
          example_amdsec ''fixity check'' '''' '''')
       ''replication'' '''' ''''"

text \<open>
  A document without any \<^verbatim>\<open>agentIdentifier\<close> element in the METS namespace, as every
  document is that holds its agents in the PREMIS namespace, gets one more agent entry
  from every call: the query looks for the agent in the METS namespace, while
  \<^verbatim>\<open>mets_ss_agent\<close> writes it in the PREMIS namespace.
\<close>

lemma descendants_append_child:
  "descendants (append_child d c) = descendants d @ c # descendants c"
  by (cases d) simp

lemma length_children_append_child:
  "length (xml_children (append_child d c)) = Suc (length (xml_children d))"
  by (cases d) simp

lemma namespaces_differ: "NSMAP_premis \<noteq> NSMAP_mets"
  by (simp add: NSMAP_premis_def NSMAP_mets_def)

lemma mets_add_event_appends_agent:
  assumes "xpath_mets_agentIdentifier amdsec ''storage service'' (storage_service_agent ss_version) = []"
  shows "agent_identifiers (mets_add_event ss_version now event_uuid amdsec event_type event_detail
                              event_outcome_detail_note)
         = agent_identifiers amdsec @ [(''storage service'', storage_service_agent ss_version)]"
proof -
  define ev where "ev = mets_event now event_uuid
      (''digiprovMD_'' @ str_nat (length (xml_children amdsec))) event_type event_detail
      event_outcome_detail_note ''storage service'' (storage_service_agent ss_version)"
  have no_mets: "filter (\<lambda>e. xml_ns e = NSMAP_mets \<and> xml_tag e = ''agentIdentifier''
                 \<and> has_child NSMAP_mets ''agentIdentifierType'' ''storage service'' e
                 \<and> has_child NSMAP_mets ''agentIdentifierValue'' (storage_service_agent ss_version) e)
            (ev # descendants ev) = []"
    using namespaces_differ by (simp add: ev_def mets_event_def Let_def)
  have ev_not: "\<not> (xml_ns ev = NSMAP_premis \<and> xml_tag ev = ''agentIdentifier'')"
    by (simp add: ev_def mets_event_def Let_def)
  have no_premis: "filter (\<lambda>e. xml_ns e = NSMAP_premis \<and> xml_tag e = ''agentIdentifier'')
            (descendants ev) = []"
    by (simp add: ev_def mets_event_def Let_def)
  have q: "xpath_mets_agentIdentifier (append_child amdsec ev) ''storage service''
             (storage_service_agent ss_version) = []"
    using assms no_mets
    unfolding xpath_mets_agentIdentifier_def descendants_append_child filter_append by simp
  show ?thesis
    unfolding mets_add_event_def Let_def ev_def [symmetric] mets_ss_agent_def q
    using ev_not
    by (simp add: agent_identifiers_def descendants_append_child no_premis namespaces_differ
          namespaces_differ [symmetric])
qed

text \<open>
  Claim C9 at a concrete document: two calls of \<^verbatim>\<open>mets_add_event\<close> on an empty
  \<^verbatim>\<open>amdSec\<close>, for the storage service 0.11.0, leave two agent entries with the same
  identifier type and the same identifier value.
\<close>

theorem mets_add_event_twice_duplicates_agent:
  "agent_identifiers example_amdsec = []
   \<and> agent_identifiers example_amdsec_after_two_events =
       [(''storage service'', ''Archivematica Storage Service-0.11.0''),
        (''storage service'', ''Archivematica Storage Service-0.11.0'')]
   \<and> \<not> distinct (agent_identifiers example_amdsec_after_two_events)"
  by code_simp

end
